theory Spec2Isabelle
  imports Main "HOL-Library.Sublist"
begin

section \<open>Platform: strings, regular expressions, paths\<close>

text \<open>
  Strings are lists of 8-bit characters, one \<^typ>\<open>char\<close> per JavaScript code unit.
  The repository uses three regular expressions: \<^verbatim>\<open>/^[0-9]+/\<close> and
  \<^verbatim>\<open>/[^\w$]/g\<close> in \<^verbatim>\<open>normalizeName\<close>, and
  \<^verbatim>\<open>new RegExp('{'+ key +'}','g')\<close> in \<^verbatim>\<open>Temper.html\<close>. The
  first two, and the third for the keys one expects, are sequences of one-character atoms,
  each with an optional greedy quantifier, so that is the fragment of the regular
  expression language that is modelled.
\<close>

datatype atom = Chr char | Dot | Cls bool "(char \<times> char) list"

datatype quant = Once | Opt | Star | Plus

type_synonym piece = "atom \<times> quant"

definition in_ranges :: "char \<Rightarrow> (char \<times> char) list \<Rightarrow> bool" where
  "in_ranges c rs =
     list_ex (\<lambda>(lo, hi). (of_char lo :: nat) \<le> of_char c \<and> (of_char c :: nat) \<le> of_char hi) rs"

text \<open>
  \<open>Cls neg rs\<close> is a character class: \<open>rs\<close> are its ranges and \<open>neg\<close> says that it
  starts with \<^verbatim>\<open>^\<close>. The dot matches everything but a line terminator.
\<close>

fun atom_ok :: "atom \<Rightarrow> char \<Rightarrow> bool" where
  "atom_ok (Chr a) c = (a = c)"
| "atom_ok Dot c = (c \<noteq> CHR 0x0A \<and> c \<noteq> CHR 0x0D)"
| "atom_ok (Cls neg rs) c = (in_ranges c rs \<noteq> neg)"

text \<open>
  \<open>rx_match ps s\<close> matches the pieces at the start of \<open>s\<close> the way a backtracking
  matcher does, the greedy alternative first, and returns the length of the match.
\<close>

fun rx_match :: "piece list \<Rightarrow> string \<Rightarrow> nat option" where
  "rx_match [] s = Some 0"
| "rx_match ((a, Once) # r) [] = None"
| "rx_match ((a, Once) # r) (c # cs) =
     (if atom_ok a c then map_option Suc (rx_match r cs) else None)"
| "rx_match ((a, Opt) # r) [] = rx_match r []"
| "rx_match ((a, Opt) # r) (c # cs) =
     (if atom_ok a c
      then (case rx_match r cs of Some n \<Rightarrow> Some (Suc n) | None \<Rightarrow> rx_match r (c # cs))
      else rx_match r (c # cs))"
| "rx_match ((a, Star) # r) [] = rx_match r []"
| "rx_match ((a, Star) # r) (c # cs) =
     (if atom_ok a c
      then (case rx_match ((a, Star) # r) cs of
              Some n \<Rightarrow> Some (Suc n)
            | None \<Rightarrow> rx_match r (c # cs))
      else rx_match r (c # cs))"
| "rx_match ((a, Plus) # r) [] = None"
| "rx_match ((a, Plus) # r) (c # cs) =
     (if atom_ok a c then map_option Suc (rx_match ((a, Star) # r) cs) else None)"

text \<open>
  The second argument of \<^verbatim>\<open>String.prototype.replace\<close>: a string, in which the
  patterns \<^verbatim>\<open>$$\<close>, \<^verbatim>\<open>$&\<close>, \<^verbatim>\<open>$`\<close> and \<^verbatim>\<open>$'\<close> are expanded,
  or a function, whose result is inserted as it is. None of the patterns of the repository
  has a capture group, so \<^verbatim>\<open>$1\<close> and the like stay as they are.
\<close>

datatype replacement = By_string string | By_function "string \<Rightarrow> string"

fun expand :: "string \<Rightarrow> string \<Rightarrow> string \<Rightarrow> string \<Rightarrow> string" where
  "expand m b a [] = []"
| "expand m b a [c] = [c]"
| "expand m b a (c # d # r) =
     (if c = CHR ''$'' then
        (if d = CHR ''$'' then CHR ''$'' # expand m b a r
         else if d = CHR ''&'' then m @ expand m b a r
         else if d = CHR 0x60 then b @ expand m b a r
         else if d = CHR 0x27 then a @ expand m b a r
         else c # expand m b a (d # r))
      else c # expand m b a (d # r))"

fun substitute :: "replacement \<Rightarrow> string \<Rightarrow> string \<Rightarrow> string \<Rightarrow> string" where
  "substitute (By_string r) m b a = expand m b a r"
| "substitute (By_function f) m b a = f m"

text \<open>
  \<^verbatim>\<open>s.replace(/^.../, r)\<close>: without the \<^verbatim>\<open>g\<close> flag and anchored at the start,
  the only match looked for is the one at index 0.
\<close>

definition replace_anchored :: "piece list \<Rightarrow> replacement \<Rightarrow> string \<Rightarrow> string" where
  "replace_anchored ps r s =
     (case rx_match ps s of
        None \<Rightarrow> s
      | Some n \<Rightarrow> substitute r (take n s) [] (drop n s) @ drop n s)"

text \<open>
  \<^verbatim>\<open>s.replace(/.../g, r)\<close>: every match from left to right, the search resuming
  after the match (one character further after an empty match). \<open>pre\<close> is the part of
  the subject before the current position.
\<close>

function replace_from :: "piece list \<Rightarrow> replacement \<Rightarrow> string \<Rightarrow> string \<Rightarrow> string" where
  "replace_from ps r pre [] =
     (case rx_match ps [] of None \<Rightarrow> [] | Some n \<Rightarrow> substitute r [] pre [])"
| "replace_from ps r pre (c # cs) =
     (case rx_match ps (c # cs) of
        None \<Rightarrow> c # replace_from ps r (pre @ [c]) cs
      | Some 0 \<Rightarrow> substitute r [] pre (c # cs) @ c # replace_from ps r (pre @ [c]) cs
      | Some (Suc n) \<Rightarrow>
          substitute r (c # take n cs) pre (drop n cs)
            @ replace_from ps r (pre @ c # take n cs) (drop n cs))"
  by pat_completeness auto
termination
  by (relation "measure (\<lambda>(ps, r, pre, s). length s)") auto

definition replace_global :: "piece list \<Rightarrow> replacement \<Rightarrow> string \<Rightarrow> string" where
  "replace_global ps r s = replace_from ps r [] s"

text \<open>
  \<^verbatim>\<open>s.replace(pat, r)\<close> with a string \<open>pat\<close>: the first occurrence only.
\<close>

fun find_string :: "string \<Rightarrow> string \<Rightarrow> nat option" where
  "find_string pat [] = (if pat = [] then Some 0 else None)"
| "find_string pat (c # cs) =
     (if prefix pat (c # cs) then Some 0 else map_option Suc (find_string pat cs))"

definition replace_string :: "string \<Rightarrow> string \<Rightarrow> string \<Rightarrow> string" where
  "replace_string pat r s =
     (case find_string pat s of
        None \<Rightarrow> s
      | Some i \<Rightarrow>
          take i s @ expand pat (take i s) (drop (i + length pat) s) r
            @ drop (i + length pat) s)"

subsection \<open>Node's path module (POSIX)\<close>

text \<open>
  \<open>last_part\<close> is the last component of a path, trailing slashes dropped.
  \<^verbatim>\<open>path.extname\<close> returns the component's text from its last dot on, and the empty
  string when there is no dot, when the last dot is the first character, and for
  \<^verbatim>\<open>..\<close>. \<^verbatim>\<open>path.basename(p, ext)\<close> is the component without a trailing
  \<open>ext\<close>; a component that is \<open>ext\<close> itself is kept, unless it is the whole path,
  for which the result is empty.
\<close>

definition strip_slashes :: "string \<Rightarrow> string" where
  "strip_slashes p = rev (dropWhile (\<lambda>c. c = CHR ''/'') (rev p))"

definition last_part :: "string \<Rightarrow> string" where
  "last_part p = rev (takeWhile (\<lambda>c. c \<noteq> CHR ''/'') (rev (strip_slashes p)))"

definition extname :: "string \<Rightarrow> string" where
  "extname p =
     (let part = last_part p;
          tail = rev (takeWhile (\<lambda>c. c \<noteq> CHR ''.'') (rev part))
      in if CHR ''.'' \<notin> set part then []
         else if length tail + 1 = length part then []
         else if part = ''..'' then []
         else CHR ''.'' # tail)"

definition basename :: "string \<Rightarrow> string \<Rightarrow> string" where
  "basename p ext =
     (let part = last_part p
      in if ext \<noteq> [] \<and> ext = p then []
         else if ext \<noteq> [] \<and> ext \<noteq> part \<and> suffix ext part
         then take (length part - length ext) part
         else part)"

section \<open>The function name of a template\<close>

text \<open>
  \<^verbatim>\<open>
  Temper.prototype.normalizeName = function(file) {
    var name = path.basename(file, path.extname(file));
    return name.replace(/^[0-9]+/, '').replace(/[^\w$]/g, '');
  };
  \<close>
\<close>

definition leading_digits :: "piece list" where
  "leading_digits = [(Cls False [(CHR ''0'', CHR ''9'')], Plus)]"

definition word_ranges :: "(char \<times> char) list" where
  "word_ranges =
     [(CHR ''a'', CHR ''z''), (CHR ''A'', CHR ''Z''), (CHR ''0'', CHR ''9''),
      (CHR ''_'', CHR ''_'')]"

definition not_word_or_dollar :: "piece list" where
  "not_word_or_dollar = [(Cls True (word_ranges @ [(CHR ''$'', CHR ''$'')]), Once)]"

definition normalizeName :: "string \<Rightarrow> string" where
  "normalizeName file =
     (let name = basename file (extname file)
      in replace_global not_word_or_dollar (By_string [])
           (replace_anchored leading_digits (By_string []) name))"

text \<open>
  The classes of characters the specification of \<^verbatim>\<open>normalizeName\<close> speaks of.
\<close>

definition digit :: "char \<Rightarrow> bool" where
  "digit c =
     ((of_char (CHR ''0'') :: nat) \<le> of_char c \<and> (of_char c :: nat) \<le> of_char (CHR ''9''))"

definition letter :: "char \<Rightarrow> bool" where
  "letter c =
     ((of_char (CHR ''a'') :: nat) \<le> of_char c \<and> (of_char c :: nat) \<le> of_char (CHR ''z'')
      \<or> (of_char (CHR ''A'') :: nat) \<le> of_char c \<and> (of_char c :: nat) \<le> of_char (CHR ''Z''))"

definition ident_char :: "char \<Rightarrow> bool" where
  "ident_char c = (letter c \<or> digit c \<or> c = CHR ''_'' \<or> c = CHR ''$'')"

section \<open>The pass-through engine\<close>

subsection \<open>Data records\<close>

text \<open>
  A data record is a JavaScript object: its own properties in the order in which
  \<^verbatim>\<open>for (key in data)\<close> visits them, each enumerable or not, and its prototype,
  if it has one. Values are written as the strings that \<^verbatim>\<open>replace\<close> turns the
  result of its callback into.
\<close>

record property =
  enumerable :: bool
  content :: string

datatype jsobj = Obj (own: "(string \<times> property) list") (proto: "jsobj option")

text \<open>
  \<^verbatim>\<open>for (key in data)\<close> visits the enumerable properties of the object, then those
  of its prototype chain; a name that an object nearer to \<open>data\<close> has, enumerable or not,
  is not visited again.
\<close>

fun for_in :: "jsobj \<Rightarrow> string list \<Rightarrow> string list" where
  "for_in (Obj ps pr) seen =
     map fst (filter (\<lambda>(k, p). enumerable p \<and> k \<notin> set seen) ps)
       @ (case pr of None \<Rightarrow> [] | Some parent \<Rightarrow> for_in parent (seen @ map fst ps))"

definition hasOwnProperty :: "jsobj \<Rightarrow> string \<Rightarrow> bool" where
  "hasOwnProperty d k = (k \<in> set (map fst (own d)))"

text \<open>\<^verbatim>\<open>data[key]\<close>: the property of the object, or else of its prototype chain.\<close>

fun get :: "jsobj \<Rightarrow> string \<Rightarrow> string option" where
  "get (Obj ps pr) k =
     (case map_of ps k of
        Some p \<Rightarrow> Some (content p)
      | None \<Rightarrow> (case pr of None \<Rightarrow> None | Some parent \<Rightarrow> get parent k))"

subsection \<open>The regular expression of a key\<close>

datatype error = Error string | TypeError | SyntaxError | Unmodelled

text \<open>
  \<open>braced cs\<close>: the text after a \<^verbatim>\<open>{\<close> completes a quantifier
  \<^verbatim>\<open>{n}\<close>, \<^verbatim>\<open>{n,}\<close> or \<^verbatim>\<open>{n,m}\<close>.
\<close>

definition braced :: "string \<Rightarrow> bool" where
  "braced cs =
     (takeWhile digit cs \<noteq> [] \<and>
      (case dropWhile digit cs of
         [] \<Rightarrow> False
       | c # r \<Rightarrow>
           c = CHR ''}'' \<or>
           (c = CHR '','' \<and> (case dropWhile digit r of [] \<Rightarrow> False | d # _ \<Rightarrow> d = CHR ''}''))))"

definition quant_of :: "char \<Rightarrow> quant" where
  "quant_of c = (if c = CHR ''*'' then Star else if c = CHR ''+'' then Plus else Opt)"

text \<open>
  \<^verbatim>\<open>new RegExp(source, 'g')\<close>, without the \<^verbatim>\<open>u\<close> flag. The pieces read so
  far are in \<open>acc\<close>, the last one first. A quantifier with nothing before it to repeat is
  a \<^verbatim>\<open>SyntaxError\<close>; a brace that does not complete a quantifier, and
  \<^verbatim>\<open>}\<close> and \<^verbatim>\<open>]\<close> on their own, are ordinary characters. Groups,
  classes, alternatives, escapes, assertions, counted and lazy quantifiers are outside the
  fragment: for them the model answers \<open>Unmodelled\<close> and says nothing about the code.
\<close>

fun parse_pieces :: "string \<Rightarrow> piece list \<Rightarrow> error + piece list" where
  "parse_pieces [] acc = Inr (rev acc)"
| "parse_pieces (c # cs) acc =
     (if c = CHR ''*'' \<or> c = CHR ''+'' \<or> c = CHR ''?'' then
        (case acc of
           [] \<Rightarrow> Inl SyntaxError
         | (a, Once) # acc' \<Rightarrow> parse_pieces cs ((a, quant_of c) # acc')
         | (a, q) # acc' \<Rightarrow> if c = CHR ''?'' then Inl Unmodelled else Inl SyntaxError)
      else if c = CHR ''{'' \<and> braced cs then
        (case acc of (a, Once) # acc' \<Rightarrow> Inl Unmodelled | _ \<Rightarrow> Inl SyntaxError)
      else if c = CHR ''.'' then parse_pieces cs ((Dot, Once) # acc)
      else if c \<in> set (CHR 0x5C # ''()[|^$'') then Inl Unmodelled
      else parse_pieces cs ((Chr c, Once) # acc))"

definition new_RegExp :: "string \<Rightarrow> error + piece list" where
  "new_RegExp source = parse_pieces source []"

subsection \<open>Temper.html\<close>

text \<open>
  \<^verbatim>\<open>
  Temper.html = function html(template, data, key) {
    var has = Object.prototype.hasOwnProperty;
    for (key in data) {
      if (has.call(data, key)) {
        template = template.replace(new RegExp('{'+ key +'}','g'), function hack() {
          return data[key];
        });
      }
    }
    return template;
  };
  \<close>
  \<open>html_loop\<close> is the loop over the keys that \<open>for_in\<close> gives.
\<close>

definition to_string :: "string option \<Rightarrow> string" where
  "to_string v = (case v of None \<Rightarrow> ''undefined'' | Some x \<Rightarrow> x)"

fun html_loop :: "string \<Rightarrow> jsobj \<Rightarrow> string list \<Rightarrow> error + string" where
  "html_loop template data [] = Inr template"
| "html_loop template data (key # keys) =
     (if hasOwnProperty data key then
        (case new_RegExp (CHR ''{'' # key @ ''}'') of
           Inl e \<Rightarrow> Inl e
         | Inr ps \<Rightarrow>
             html_loop
               (replace_global ps (By_function (\<lambda>hack. to_string (get data key))) template)
               data keys)
      else html_loop template data keys)"

definition html :: "string \<Rightarrow> jsobj \<Rightarrow> error + string" where
  "html template data = html_loop template data (for_in data [])"

section \<open>The instance and its caches\<close>

text \<open>
  A loaded compiler is opaque; \<open>None\<close> in the \<open>required\<close> cache is the
  \<^verbatim>\<open>null\<close> that stands for the pass-through engine.
\<close>

datatype jsmodule = Jsmodule string

text \<open>
  Modelled from the spec: the timer registry \<^verbatim>\<open>tick-tock\<close> is a package of its
  own and not part of the sources. A timer has a name; setting a name again replaces the
  timer. What the timers of this program do when they fire is one of two things.
\<close>

datatype cleanup = Remove_required string | Remove_file string

record timer =
  action :: cleanup
  duration :: nat

type_synonym tick_tock = "string \<rightharpoonup> timer"

definition setTimeout :: "tick_tock \<Rightarrow> string \<Rightarrow> cleanup \<Rightarrow> nat \<Rightarrow> tick_tock" where
  "setTimeout tt name act ms = tt(name \<mapsto> \<lparr>action = act, duration = ms\<rparr>)"

text \<open>
  The \<^verbatim>\<open>server\<close> of an artifact is a function: the closure of the pass-through
  engine over its template, or whatever a compiler returned.
\<close>

datatype render = Html_render string | Engine_render string string

record hashes =
  hash_library :: string
  hash_client :: string
  hash_server :: string

text \<open>\<open>extra\<close> holds the properties a caller adds to the object afterwards.\<close>

record artifact =
  library :: string
  client :: string
  server :: render
  engine :: string
  hash :: hashes
  extra :: "(string \<times> string) list"

text \<open>
  The fields of a \<^verbatim>\<open>Temper\<close> instance. \<open>timers\<close> is \<open>None\<close> when the field is
  \<^verbatim>\<open>null\<close>. The compiled cache holds references: \<open>objects\<close> is the part of the
  heap where the artifacts live, a reference being an index into it.
\<close>

record temper =
  installed :: "string \<rightharpoonup> string"
  required :: "string \<rightharpoonup> jsmodule option"
  compiled :: "string \<rightharpoonup> nat"
  timers :: "tick_tock option"
  "file" :: "string \<rightharpoonup> string"
  cache :: bool
  objects :: "artifact list"

text \<open>
  \<^verbatim>\<open>
  function Temper(options) {
    options = options || {};
    options.cache = 'cache' in options
      ? options.cache
      : process.env.NODE_ENV !== 'production';
    this.installed = Object.create(null);
    this.required = Object.create(null);
    this.compiled = Object.create(null);
    this.timers = new TickTock(this);
    this.file = Object.create(null);
    this.cache = options.cache;
  }
  \<close>
  The first argument is \<^verbatim>\<open>options.cache\<close>, \<open>None\<close> when the options have no such
  property; the second is \<^verbatim>\<open>process.env.NODE_ENV\<close>.
\<close>

definition Temper :: "bool option \<Rightarrow> string option \<Rightarrow> temper" where
  "Temper cache_option node_env =
     \<lparr>installed = Map.empty, required = Map.empty, compiled = Map.empty,
      timers = Some Map.empty, file = Map.empty,
      cache = (case cache_option of
                 Some c \<Rightarrow> c
               | None \<Rightarrow> node_env \<noteq> Some ''production''),
      objects = []\<rparr>"

text \<open>
  \<^verbatim>\<open>
  Temper.prototype.supported = {
    '.mustache': ['hogan.js', 'mustache', 'handlebars'],
    '.handlebars': ['handlebars'],
    '.hbs': ['handlebars'],
    '.jsx': ['react-jsx'],
    '.html': ['html'],
    '.jade': ['jade'],
    '.ejs': ['ejs']
  };
  \<close>
\<close>

definition supported :: "string \<rightharpoonup> string list" where
  "supported = map_of
     [(''.mustache'', [''hogan.js'', ''mustache'', ''handlebars'']),
      (''.handlebars'', [''handlebars'']),
      (''.hbs'', [''handlebars'']),
      (''.jsx'', [''react-jsx'']),
      (''.html'', [''html'']),
      (''.jade'', [''jade'']),
      (''.ejs'', [''ejs''])]"

subsection \<open>What the instance asks of its surroundings\<close>

record options =
  opt_engine :: string
  opt_name :: "string option"
  opt_filename :: string
  opt_debug :: bool

text \<open>What a branch of the \<^verbatim>\<open>switch\<close> in \<^verbatim>\<open>compile\<close> leaves in its variables.\<close>

record parts =
  part_server :: "render option"
  part_client :: "string option"
  part_library :: "string option"

text \<open>
  The surroundings may differ from one call to the next: modules get installed, files
  change. \<open>node_require\<close> is Node's \<^verbatim>\<open>require\<close> (\<open>None\<close>: it throws),
  \<open>readFileSync\<close> is \<^verbatim>\<open>fs.readFileSync(file, 'utf-8')\<close> (\<open>Inl\<close>: it throws, with
  this message), \<open>md5\<close> is the digest, \<open>html_source\<close> is
  \<^verbatim>\<open>Temper.html.toString()\<close> and \<open>render_source\<close> the text of a render function.
  \<open>compiler_output\<close> is what the compilers, which are other packages, compute in the branch
  of an engine: the server function, the client (for \<^verbatim>\<open>ejs\<close>, \<^verbatim>\<open>jade\<close> and
  \<^verbatim>\<open>react-jsx\<close> the text of the client function before it is given its name) and
  the path of the library.
\<close>

record env =
  node_require :: "string \<Rightarrow> jsmodule option"
  readFileSync :: "string \<Rightarrow> string + string"
  md5 :: "string \<Rightarrow> string"
  html_source :: string
  render_source :: "render \<Rightarrow> string"
  compiler_output :: "string \<Rightarrow> jsmodule option \<Rightarrow> string \<Rightarrow> options \<Rightarrow> error + parts"

subsection \<open>require\<close>

text \<open>
  \<^verbatim>\<open>
  Temper.prototype.require = function requires(engine, extname) {
    if (engine in this.required) return this.required[engine];
    var temper = this;
    try { this.required[engine] = 'html' !== engine ? require(engine) : null; }
    catch (e) {
      throw new Error('The '+ engine +' module isn\'t installed which we need to compile '
        + extname +' templates. Run `npm install --save '+ engine
        +'` in the root of your project.');
    }
    this.timers.setTimeout('require-'+ engine, function cleanup() {
      delete temper.required[engine];
    }, '5 minutes');
    return this.required[engine];
  };
  \<close>
\<close>

definition not_installed :: "string \<Rightarrow> string \<Rightarrow> string" where
  "not_installed eng ext =
     ''The '' @ eng @ '' module isn'' @ [CHR 0x27] @ ''t installed which we need to compile ''
       @ ext @ '' templates. Run '' @ [CHR 0x60] @ ''npm install --save '' @ eng @ [CHR 0x60]
       @ '' in the root of your project.''"

definition require ::
  "env \<Rightarrow> temper \<Rightarrow> string \<Rightarrow> string \<Rightarrow> (error + jsmodule option) \<times> temper" where
  "require e s eng ext =
     (case required s eng of
        Some m \<Rightarrow> (Inr m, s)
      | None \<Rightarrow>
          (case (if eng \<noteq> ''html'' then map_option Some (node_require e eng) else Some None) of
             None \<Rightarrow> (Inl (Error (not_installed eng ext)), s)
           | Some m \<Rightarrow>
               (let s1 = s\<lparr>required := (required s)(eng \<mapsto> m)\<rparr>
                in case timers s1 of
                     None \<Rightarrow> (Inl TypeError, s1)
                   | Some tt \<Rightarrow>
                       (Inr m,
                        s1\<lparr>timers :=
                             Some (setTimeout tt (''require-'' @ eng) (Remove_required eng)
                                     300000)\<rparr>))))"

subsection \<open>read\<close>

text \<open>
  \<^verbatim>\<open>
  Temper.prototype.read = function read(file) {
    if (file in this.file) return this.file[file];
    var temper = this;
    try {
      this.file[file] = fs.readFileSync(file, 'utf-8');
    } catch (e) {
      throw new Error('Unable to read '+ file +' due to '+ e.message);
    }
    this.timers.setTimeout('read-'+ file, function cleanup() {
      delete temper.file[file];
    }, '1 minute');
    return this.file[file];
  };
  \<close>
\<close>

definition read :: "env \<Rightarrow> temper \<Rightarrow> string \<Rightarrow> (error + string) \<times> temper" where
  "read e s f =
     (case file s f of
        Some text \<Rightarrow> (Inr text, s)
      | None \<Rightarrow>
          (case readFileSync e f of
             Inl message \<Rightarrow> (Inl (Error (''Unable to read '' @ f @ '' due to '' @ message)), s)
           | Inr text \<Rightarrow>
               (let s1 = s\<lparr>file := (file s)(f \<mapsto> text)\<rparr>
                in case timers s1 of
                     None \<Rightarrow> (Inl TypeError, s1)
                   | Some tt \<Rightarrow>
                       (Inr text,
                        s1\<lparr>timers :=
                             Some (setTimeout tt (''read-'' @ f) (Remove_file f) 60000)\<rparr>))))"

subsection \<open>discover\<close>

text \<open>
  \<^verbatim>\<open>
  Temper.prototype.discover = function discover(file) {
    var extname = path.extname(file)
      , list = this.supported[extname]
      , temper = this
      , found;
    if (extname in this.installed) return this.installed[extname];
    if (!list) {
      throw new Error('Unknown file extension. '+ extname +' is not supported');
    }
    found = list.filter(function filter(engine) {
      var compiler;
      try { compiler = temper.require(engine, extname); }
      catch (e) { return false; }
      temper.required[engine] = compiler;
      temper.installed[extname] = engine;
      return true;
    });
    if (found.length) return found[0];
    throw new Error('No compatible template engine installed, please run: npm install --save '
      + list[0]);
  };
  \<close>
  \<open>probe\<close> is \<^verbatim>\<open>list.filter\<close> with this callback: it visits every element of
  the list and returns the elements for which the callback returned \<^verbatim>\<open>true\<close>.
\<close>

fun probe :: "env \<Rightarrow> temper \<Rightarrow> string \<Rightarrow> string list \<Rightarrow> string list \<times> temper" where
  "probe e s ext [] = ([], s)"
| "probe e s ext (eng # rest) =
     (case require e s eng ext of
        (Inl err, s1) \<Rightarrow> probe e s1 ext rest
      | (Inr compiler, s1) \<Rightarrow>
          (let s2 = s1\<lparr>required := (required s1)(eng \<mapsto> compiler)\<rparr>;
               s3 = s2\<lparr>installed := (installed s2)(ext \<mapsto> eng)\<rparr>;
               (found, s4) = probe e s3 ext rest
           in (eng # found, s4)))"

definition unknown_extension :: "string \<Rightarrow> string" where
  "unknown_extension ext = ''Unknown file extension. '' @ ext @ '' is not supported''"

definition no_engine :: "string list \<Rightarrow> string" where
  "no_engine list =
     ''No compatible template engine installed, please run: npm install --save ''
       @ to_string (case list of [] \<Rightarrow> None | first # _ \<Rightarrow> Some first)"

definition discover :: "env \<Rightarrow> temper \<Rightarrow> string \<Rightarrow> (error + string) \<times> temper" where
  "discover e s f =
     (let ext = extname f
      in case installed s ext of
           Some eng \<Rightarrow> (Inr eng, s)
         | None \<Rightarrow>
             (case supported ext of
                None \<Rightarrow> (Inl (Error (unknown_extension ext)), s)
              | Some list \<Rightarrow>
                  (case probe e s ext list of
                     (eng # _, s1) \<Rightarrow> (Inr eng, s1)
                   | ([], s1) \<Rightarrow> (Inl (Error (no_engine list)), s1))))"

subsection \<open>compile\<close>

text \<open>
  \<^verbatim>\<open>JSON.stringify\<close> of a string: the quote, the backslash and the control
  characters are escaped, the others stand for themselves.
\<close>

definition hex_digit :: "nat \<Rightarrow> char" where
  "hex_digit n = ''0123456789abcdef'' ! (n mod 16)"

definition json_char :: "char \<Rightarrow> string" where
  "json_char c =
     (if c = CHR 0x22 then [CHR 0x5C, CHR 0x22]
      else if c = CHR 0x5C then [CHR 0x5C, CHR 0x5C]
      else if c = CHR 0x08 then [CHR 0x5C, CHR ''b'']
      else if c = CHR 0x0C then [CHR 0x5C, CHR ''f'']
      else if c = CHR 0x0A then [CHR 0x5C, CHR ''n'']
      else if c = CHR 0x0D then [CHR 0x5C, CHR ''r'']
      else if c = CHR 0x09 then [CHR 0x5C, CHR ''t'']
      else if (of_char c :: nat) < 32 then
        [CHR 0x5C, CHR ''u'', CHR ''0'', CHR ''0'',
         hex_digit (of_char c div 16), hex_digit (of_char c)]
      else [c])"

definition JSON_stringify :: "string \<Rightarrow> string" where
  "JSON_stringify s = CHR 0x22 # concat (map json_char s) @ [CHR 0x22]"

text \<open>
  \<^verbatim>\<open>new Function(param, body).toString()\<close>, in the form that ECMAScript fixes
  since 2019, and
  \<^verbatim>\<open>
  Temper.prototype.transform = function transform(fn, name) {
    return fn.toString().replace('function anonymous', 'function ' + name);
  };
  \<close>
  where \<open>fn\<close> is the text of the function already and \<open>name\<close> is \<open>None\<close> for
  \<^verbatim>\<open>undefined\<close>.
\<close>

definition function_text :: "string \<Rightarrow> string \<Rightarrow> string" where
  "function_text param body =
     ''function anonymous('' @ param @ [CHR 0x0A] @ '') {'' @ [CHR 0x0A] @ body @ [CHR 0x0A] @ ''}''"

definition transform :: "string \<Rightarrow> string option \<Rightarrow> string" where
  "transform fn name = replace_string ''function anonymous'' (''function '' @ to_string name) fn"

definition html_client :: "env \<Rightarrow> string \<Rightarrow> string option \<Rightarrow> string" where
  "html_client e template name =
     transform
       (function_text ''data''
          (html_source e @ [CHR 0x0A]
             @ ''return html('' @ JSON_stringify template @ '', data || {});''))
       name"

text \<open>
  The \<^verbatim>\<open>switch\<close> of \<^verbatim>\<open>compile\<close>. The branch of the pass-through engine is
  \<^verbatim>\<open>
  case 'html':
    client = this.transform(
      new Function('data', [
        Temper.html.toString(),
        'return html('+ JSON.stringify(template) +', data || {});'
      ].join('\n')
    ), options.name);
    server = function render(data) {
      return Temper.html(template, data || {});
    };
  break;
  \<close>
  An engine without a branch leaves the three variables undefined.
\<close>

definition switch :: "env \<Rightarrow> jsmodule option \<Rightarrow> string \<Rightarrow> options \<Rightarrow> error + parts" where
  "switch e compiler template opts =
     (let eng = opt_engine opts
      in if eng = ''hogan.js'' \<or> eng = ''handlebars'' then
           compiler_output e eng compiler template opts
         else if eng = ''ejs'' \<or> eng = ''jade'' \<or> eng = ''react-jsx'' then
           (case compiler_output e eng compiler template opts of
              Inl err \<Rightarrow> Inl err
            | Inr p \<Rightarrow>
                (case part_client p of
                   None \<Rightarrow> Inl TypeError
                 | Some fn \<Rightarrow> Inr (p\<lparr>part_client := Some (transform fn (opt_name opts))\<rparr>)))
         else if eng = ''html'' then
           Inr \<lparr>part_server = Some (Html_render template),
                part_client = Some (html_client e template (opt_name opts)),
                part_library = None\<rparr>
         else Inr \<lparr>part_server = None, part_client = None, part_library = None\<rparr>)"

text \<open>
  \<^verbatim>\<open>
  Temper.prototype.compile = function compile(template, options) {
    var compiler = this.require(options.engine, path.extname(options.filename))
      , library, directory, server, client;
    switch (options.engine) { ... }
    library = library ? this.read(library) : '';
    return {
      library: library,
      client: client,
      server: server,
      engine: options.engine,
      hash: {
        library: this.hash(library),
        client: this.hash(client),
        server: this.hash(server)
      }
    };
  };
  \<close>
  \<^verbatim>\<open>hash\<close> calls \<^verbatim>\<open>toString\<close> on its argument, which throws for
  \<^verbatim>\<open>undefined\<close>. The result is a new object; the model returns the reference to it.
\<close>

definition compile :: "env \<Rightarrow> temper \<Rightarrow> string \<Rightarrow> options \<Rightarrow> (error + nat) \<times> temper" where
  "compile e s template opts =
     (case require e s (opt_engine opts) (extname (opt_filename opts)) of
        (Inl err, s1) \<Rightarrow> (Inl err, s1)
      | (Inr compiler, s1) \<Rightarrow>
          (case switch e compiler template opts of
             Inl err \<Rightarrow> (Inl err, s1)
           | Inr p \<Rightarrow>
               (case (case part_library p of
                        None \<Rightarrow> (Inr [], s1)
                      | Some path \<Rightarrow> if path = [] then (Inr [], s1) else read e s1 path) of
                  (Inl err, s2) \<Rightarrow> (Inl err, s2)
                | (Inr lib, s2) \<Rightarrow>
                    (case (part_client p, part_server p) of
                       (Some c, Some sv) \<Rightarrow>
                         (Inr (length (objects s2)),
                          s2\<lparr>objects := objects s2 @
                               [\<lparr>library = lib, client = c, server = sv,
                                 engine = opt_engine opts,
                                 hash = \<lparr>hash_library = md5 e lib, hash_client = md5 e c,
                                         hash_server = md5 e (render_source e sv)\<rparr>,
                                 extra = []\<rparr>]\<rparr>)
                     | _ \<Rightarrow> (Inl TypeError, s2)))))"

subsection \<open>fetch\<close>

text \<open>
  \<^verbatim>\<open>
  Temper.prototype.fetch =
  Temper.prototype.prefetch = function prefetch(file, engine) {
    if (file in this.compiled) return this.compiled[file];
    var compiled = this.compile(this.read(file), {
      engine: engine || this.discover(file),
      name: this.normalizeName(file),
      filename: file
    });
    if (!this.cache) return compiled;
    return this.compiled[file] = compiled;
  };
  \<close>
  \<open>eng\<close> is \<open>None\<close> when the second argument is left out; the empty string is as good as
  left out.
\<close>

definition fetch :: "env \<Rightarrow> temper \<Rightarrow> string \<Rightarrow> string option \<Rightarrow> (error + nat) \<times> temper" where
  "fetch e s f eng =
     (case compiled s f of
        Some ref \<Rightarrow> (Inr ref, s)
      | None \<Rightarrow>
          (case read e s f of
             (Inl err, s1) \<Rightarrow> (Inl err, s1)
           | (Inr template, s1) \<Rightarrow>
               (case (case eng of
                        None \<Rightarrow> discover e s1 f
                      | Some given \<Rightarrow> if given = [] then discover e s1 f else (Inr given, s1)) of
                  (Inl err, s2) \<Rightarrow> (Inl err, s2)
                | (Inr chosen, s2) \<Rightarrow>
                    (case compile e s2 template
                            \<lparr>opt_engine = chosen, opt_name = Some (normalizeName f),
                             opt_filename = f, opt_debug = False\<rparr> of
                       (Inl err, s3) \<Rightarrow> (Inl err, s3)
                     | (Inr ref, s3) \<Rightarrow>
                         if \<not> cache s3 then (Inr ref, s3)
                         else (Inr ref, s3\<lparr>compiled := (compiled s3)(f \<mapsto> ref)\<rparr>)))))"

text \<open>What a caller does with the result: add a property to the object.\<close>

definition set_property :: "temper \<Rightarrow> nat \<Rightarrow> string \<Rightarrow> string \<Rightarrow> temper" where
  "set_property s ref k v =
     s\<lparr>objects := (objects s)[ref := (objects s ! ref)\<lparr>extra := (k, v) # extra (objects s ! ref)\<rparr>]\<rparr>"

subsection \<open>The server of the pass-through engine\<close>

text \<open>
  \<^verbatim>\<open>{}\<close> has no property of its own; what it inherits from
  \<^verbatim>\<open>Object.prototype\<close> is not enumerable.
\<close>

definition Object_prototype :: jsobj where
  "Object_prototype =
     Obj (map (\<lambda>k. (k, \<lparr>enumerable = False, content = ''function () { [native code] }''\<rparr>))
            [''constructor'', ''hasOwnProperty'', ''isPrototypeOf'', ''propertyIsEnumerable'',
             ''toLocaleString'', ''toString'', ''valueOf''])
         None"

definition empty_object :: jsobj where
  "empty_object = Obj [] (Some Object_prototype)"

text \<open>
  \<^verbatim>\<open>function render(data) { return Temper.html(template, data || {}); }\<close>; the
  render function of a compiler is not part of this program.
\<close>

fun call_server :: "render \<Rightarrow> jsobj option \<Rightarrow> error + string" where
  "call_server (Html_render template) data =
     html template (case data of None \<Rightarrow> empty_object | Some d \<Rightarrow> d)"
| "call_server (Engine_render eng template) data = Inl Unmodelled"

subsection \<open>destroy\<close>

text \<open>
  In \<^verbatim>\<open>index.js\<close>:
  \<^verbatim>\<open>
  Temper.prototype.destroy = function destroy() {
    if (this.timers) return false;
    this.timers.destroy();
    this.installed = this.required = this.compiled = this.file = this.timers = null;
    return true;
  };
  \<close>
  Past the first line \<^verbatim>\<open>this.timers\<close> is \<^verbatim>\<open>null\<close> or
  \<^verbatim>\<open>undefined\<close>, so the call of its method throws and the last two lines are never
  reached.
\<close>

definition destroy :: "temper \<Rightarrow> (error + bool) \<times> temper" where
  "destroy s =
     (case timers s of
        Some tt \<Rightarrow> (Inr False, s)
      | None \<Rightarrow> (Inl TypeError, s))"

subsection \<open>The string literal in the client of the pass-through engine\<close>






subsection \<open>What the specification says of the pass-through engine\<close>

text \<open>
  \<open>subst_all pat v s\<close>: every occurrence of the text \<open>pat\<close> in \<open>s\<close>, from left to right,
  is replaced by \<open>v\<close> as it is.
\<close>

function subst_all :: "string \<Rightarrow> string \<Rightarrow> string \<Rightarrow> string" where
  "subst_all pat v [] = []"
| "subst_all pat v (c # cs) =
     (if pat \<noteq> [] \<and> prefix pat (c # cs)
      then v @ subst_all pat v (drop (length pat) (c # cs))
      else c # subst_all pat v cs)"
  by pat_completeness auto
termination
  by (relation "measure (\<lambda>(pat, v, s). length s)") auto

definition placeholder :: "string \<Rightarrow> string" where
  "placeholder key = CHR ''{'' # key @ ''}''"

text \<open>
  A plain key has none of the characters that mean something else than themselves in a
  regular expression, and does not read as a repetition count between the braces.
\<close>

definition special :: "char \<Rightarrow> bool" where
  "special c = (c \<in> set (CHR 0x5C # ''^$.*+?()[|{''))"

definition plain_key :: "string \<Rightarrow> bool" where
  "plain_key key = (list_all (\<lambda>c. \<not> special c) key \<and> \<not> braced (key @ ''}''))"

text \<open>
  Where the matches of a pattern are in a subject: \<open>None\<close> in the place of each match,
  the characters outside the matches as they are. \<open>fill v\<close> puts \<open>v\<close> in each such
  place.
\<close>

function skeleton :: "piece list \<Rightarrow> string \<Rightarrow> char option list" where
  "skeleton ps [] = (case rx_match ps [] of None \<Rightarrow> [] | Some n \<Rightarrow> [None])"
| "skeleton ps (c # cs) =
     (case rx_match ps (c # cs) of
        None \<Rightarrow> Some c # skeleton ps cs
      | Some 0 \<Rightarrow> None # Some c # skeleton ps cs
      | Some (Suc n) \<Rightarrow> None # skeleton ps (drop n cs))"
  by pat_completeness auto
termination
  by (relation "measure (\<lambda>(ps, s). length s)") auto

definition fill :: "string \<Rightarrow> char option list \<Rightarrow> string" where
  "fill v sk = concat (map (\<lambda>x. case x of None \<Rightarrow> v | Some c \<Rightarrow> [c]) sk)"

text \<open>The own enumerable properties, with their values.\<close>

definition entries :: "jsobj \<Rightarrow> (string \<times> string) list" where
  "entries d = map (\<lambda>(k, p). (k, content p)) (filter (\<lambda>(k, p). enumerable p) (own d))"

text \<open>
  The same for the keys of a record, one after the other: the places of a key are looked
  for in the text that the keys before it have left, and a key that is no regular
  expression ends it all.
\<close>

fun fill_keys :: "(string \<times> string) list \<Rightarrow> string \<Rightarrow> error + string" where
  "fill_keys [] t = Inr t"
| "fill_keys ((k, v) # kvs) t =
     (case new_RegExp (placeholder k) of
        Inl err \<Rightarrow> Inl err
      | Inr ps \<Rightarrow> fill_keys kvs (fill v (skeleton ps t)))"

section \<open>Auxiliary notions\<close>

text \<open>
  What \<^verbatim>\<open>require\<close>, \<^verbatim>\<open>read\<close> and \<^verbatim>\<open>discover\<close> leave alone: the
  caching flag, the compiled cache and the artifacts.
\<close>

definition same_frame :: "temper \<Rightarrow> temper \<Rightarrow> bool" where
  "same_frame s s' = (cache s' = cache s \<and> compiled s' = compiled s \<and> objects s' = objects s)"


text \<open>
  Surroundings for the examples: the modules that are installed and the files that exist,
  with stand-ins for the digest, for the texts of functions and for the compilers.
\<close>

definition surroundings :: "string list \<Rightarrow> (string \<times> string) list \<Rightarrow> env" where
  "surroundings modules files =
     \<lparr>node_require = (\<lambda>name. if name \<in> set modules then Some (Jsmodule name) else None),
      readFileSync =
        (\<lambda>path. case map_of files path of
                   Some text \<Rightarrow> Inr text
                 | None \<Rightarrow> Inl (''ENOENT: no such file or directory, open '' @ path)),
      md5 = (\<lambda>text. ''digest of '' @ text),
      html_source = ''function html(template, data, key) { /* ... */ }'',
      render_source = (\<lambda>r. ''function render(data) { /* ... */ }''),
      compiler_output =
        (\<lambda>eng compiler template opts.
           Inr \<lparr>part_server = Some (Engine_render eng template),
                part_client = Some (''function anonymous(locals) { /* ... */ }''),
                part_library = None\<rparr>)\<rparr>"

section \<open>Properties\<close>

subsection \<open>Regular expressions of the program\<close>

lemma rx_match_star_only: "rx_match [(a, Star)] s = Some (length (takeWhile (atom_ok a) s))"
  by (induction s) auto

lemma rx_match_plus_only:
  "rx_match [(a, Plus)] s =
     (case takeWhile (atom_ok a) s of [] \<Rightarrow> None | x # xs \<Rightarrow> Some (Suc (length xs)))"
  by (cases s) (auto simp: rx_match_star_only)

lemma digits_class: "atom_ok (Cls False [(CHR ''0'', CHR ''9'')]) = digit"
  by (rule ext) (simp add: in_ranges_def digit_def)

lemma replace_anchored_leading_digits:
  "replace_anchored leading_digits (By_string []) s = dropWhile digit s"
proof -
  have "length (takeWhile digit s) \<le> length s" by (rule length_takeWhile_le)
  moreover have "drop (length (takeWhile digit s)) s = dropWhile digit s"
    by (rule dropWhile_eq_drop [symmetric])
  ultimately show ?thesis
    by (cases "takeWhile digit s")
       (auto simp: replace_anchored_def leading_digits_def rx_match_plus_only digits_class
             dest: arg_cong [where f = length])
qed

lemma of_char_underscore: "((of_char c :: nat) = 95) = (c = CHR ''_'')"
  using of_char_eq_iff [of c "CHR ''_''", where ?'a = nat] by simp

lemma of_char_dollar: "((of_char c :: nat) = 36) = (c = CHR ''$'')"
  using of_char_eq_iff [of c "CHR ''$''", where ?'a = nat] by simp

lemma ident_class:
  "(\<lambda>c. in_ranges c (word_ranges @ [(CHR ''$'', CHR ''$'')])) = ident_char"
  by (rule ext)
     (auto simp: in_ranges_def word_ranges_def ident_char_def letter_def digit_def
        of_char_underscore of_char_dollar)

lemma replace_from_filter:
  "replace_from [(a, Once)] (By_string []) pre s = filter (\<lambda>c. \<not> atom_ok a c) s"
  by (induction s arbitrary: pre) auto

lemma normalizeName_filter:
  "normalizeName p = filter ident_char (dropWhile digit (basename p (extname p)))"
  by (simp add: normalizeName_def replace_global_def not_word_or_dollar_def
      replace_from_filter replace_anchored_leading_digits ident_class)

subsection \<open>The function name\<close>

text \<open>
  C7. \<^verbatim>\<open>normalizeName\<close> is a function of the path alone: it takes the base name
  without the extension, drops the digits it starts with, then keeps only the letters,
  digits, underscores and dollar signs. \<^verbatim>\<open>9$-money_$00-test.jade\<close> gives
  \<^verbatim>\<open>$money_$00test\<close>, \<^verbatim>\<open>template.jade\<close> gives \<^verbatim>\<open>template\<close>, and a
  base name of digits only, or without any character that is kept, gives the empty string.
\<close>

theorem normalizeName_spec:
  "normalizeName p = filter ident_char (dropWhile digit (basename p (extname p)))
   \<and> normalizeName ''9$-money_$00-test.jade'' = ''$money_$00test''
   \<and> normalizeName ''template.jade'' = ''template''
   \<and> ((\<forall>c \<in> set (basename p (extname p)). digit c) \<longrightarrow> normalizeName p = [])
   \<and> ((\<forall>c \<in> set (basename p (extname p)). \<not> ident_char c) \<longrightarrow> normalizeName p = [])"
proof -
  have general: "normalizeName p = filter ident_char (dropWhile digit (basename p (extname p)))"
    by (rule normalizeName_filter)
  have money: "normalizeName ''9$-money_$00-test.jade'' = ''$money_$00test''"
    by code_simp
  have plain: "normalizeName ''template.jade'' = ''template''"
    by code_simp
  have numeric: "normalizeName p = []" if "\<forall>c \<in> set (basename p (extname p)). digit c"
  proof -
    from that have none: "dropWhile digit (basename p (extname p)) = []" by simp
    show ?thesis unfolding general none by simp
  qed
  have symbols: "normalizeName p = []"
    if "\<forall>c \<in> set (basename p (extname p)). \<not> ident_char c"
  proof -
    from that have "\<forall>c \<in> set (dropWhile digit (basename p (extname p))). \<not> ident_char c"
      by (meson set_dropWhileD)
    then show ?thesis by (simp add: general filter_empty_conv)
  qed
  from general money plain numeric symbols show ?thesis by blast
qed

theorem normalizeName_spec_witness:
  "basename ''/tpl/2024.jade'' (extname ''/tpl/2024.jade'') = ''2024''
   \<and> normalizeName ''/tpl/2024.jade'' = []
   \<and> basename ''/tpl/-.-.jade'' (extname ''/tpl/-.-.jade'') = ''-.-''
   \<and> normalizeName ''/tpl/-.-.jade'' = []"
proof -
  have numeric: "basename ''/tpl/2024.jade'' (extname ''/tpl/2024.jade'') = ''2024''"
    by code_simp
  have symbols: "basename ''/tpl/-.-.jade'' (extname ''/tpl/-.-.jade'') = ''-.-''"
    by code_simp
  have "\<forall>c \<in> set ''2024''. digit c"
    by code_simp
  moreover have "\<forall>c \<in> set ''-.-''. \<not> ident_char c"
    by code_simp
  ultimately show ?thesis
    using normalizeName_spec [of "''/tpl/2024.jade''"]
      normalizeName_spec [of "''/tpl/-.-.jade''"]
    unfolding numeric symbols by blast
qed

subsection \<open>The constructor\<close>

text \<open>
  C8. Without a \<^verbatim>\<open>cache\<close> option the flag is true exactly when
  \<^verbatim>\<open>NODE_ENV\<close> is not \<^verbatim>\<open>production\<close>; a \<^verbatim>\<open>cache\<close> option that is given
  is the flag, whatever \<^verbatim>\<open>NODE_ENV\<close> is.
\<close>

theorem cache_flag_default:
  "cache (Temper None node_env) = (node_env \<noteq> Some ''production'')
   \<and> cache (Temper (Some c) node_env) = c"
  by (simp add: Temper_def)

subsection \<open>Loading a compiler, reading a file\<close>

lemma require_cases:
  "require e s eng ext =
     (case required s eng of
        Some m \<Rightarrow> (Inr m, s)
      | None \<Rightarrow>
          if eng \<noteq> ''html'' \<and> node_require e eng = None
          then (Inl (Error (not_installed eng ext)), s)
          else (case timers s of
                  None \<Rightarrow>
                    (Inl TypeError,
                     s\<lparr>required := (required s)
                          (eng \<mapsto> (if eng \<noteq> ''html'' then node_require e eng else None))\<rparr>)
                | Some tt \<Rightarrow>
                    (Inr (if eng \<noteq> ''html'' then node_require e eng else None),
                     s\<lparr>required := (required s)
                          (eng \<mapsto> (if eng \<noteq> ''html'' then node_require e eng else None)),
                       timers := Some (setTimeout tt (''require-'' @ eng) (Remove_required eng)
                                        300000)\<rparr>)))"
  by (auto simp: require_def Let_def split: option.splits)

lemma require_fails:
  assumes "timers s \<noteq> None" and "fst (require e s eng ext) = Inl err"
  shows "snd (require e s eng ext) = s" and "required s eng = None"
    and "err = Error (not_installed eng ext)" and "eng \<noteq> ''html''" and "node_require e eng = None"
  using assms by (auto simp: require_cases split: option.splits if_splits)

lemma require_retry:
  assumes "timers s \<noteq> None" and "required s eng = None" and "node_require e' eng = Some m"
    and "eng \<noteq> ''html''"
  shows "fst (require e' s eng ext) = Inr (Some m)"
    and "required (snd (require e' s eng ext)) eng = Some (Some m)"
  using assms by (auto simp: require_cases split: option.splits if_splits)

lemma read_cases:
  "read e s f =
     (case file s f of
        Some text \<Rightarrow> (Inr text, s)
      | None \<Rightarrow>
          (case readFileSync e f of
             Inl message \<Rightarrow> (Inl (Error (''Unable to read '' @ f @ '' due to '' @ message)), s)
           | Inr text \<Rightarrow>
               (case timers s of
                  None \<Rightarrow> (Inl TypeError, s\<lparr>file := (file s)(f \<mapsto> text)\<rparr>)
                | Some tt \<Rightarrow>
                    (Inr text,
                     s\<lparr>file := (file s)(f \<mapsto> text),
                       timers := Some (setTimeout tt (''read-'' @ f) (Remove_file f) 60000)\<rparr>))))"
  by (auto simp: read_def Let_def split: option.splits sum.splits)

lemma read_fails:
  assumes "timers s \<noteq> None" and "fst (read e s f) = Inl err"
  shows "snd (read e s f) = s" and "file s f = None"
    and "\<exists>message. readFileSync e f = Inl message
           \<and> err = Error (''Unable to read '' @ f @ '' due to '' @ message)"
  using assms by (auto simp: read_cases split: option.splits sum.splits)


lemma probe_nothing_found:
  "timers s \<noteq> None \<Longrightarrow> probe e s ext list = ([], s1) \<Longrightarrow> s1 = s"
proof (induction list arbitrary: s)
  case Nil
  then show ?case by simp
next
  case (Cons eng rest)
  obtain r s' where req: "require e s eng ext = (r, s')" by (cases "require e s eng ext")
  show ?case
  proof (cases r)
    case (Inl err)
    with req Cons.prems(1) have same: "s' = s"
      using require_fails(1) [of s e eng ext err] by simp
    from Inl req Cons.prems(2) have "probe e s' ext rest = ([], s1)" by simp
    with same Cons.IH [OF Cons.prems(1)] show ?thesis by simp
  next
    case (Inr compiler)
    with req Cons.prems(2) show ?thesis
      by (simp add: Let_def split: prod.splits)
  qed
qed

lemma discover_fails:
  assumes "timers s \<noteq> None" and "fst (discover e s f) = Inl err"
  shows "snd (discover e s f) = s"
proof (cases "installed s (extname f)")
  case (Some eng)
  then show ?thesis by (simp add: discover_def)
next
  case None
  show ?thesis
  proof (cases "supported (extname f)")
    case unknown: None
    with None show ?thesis by (simp add: discover_def)
  next
    case (Some list)
    obtain found s1 where p: "probe e s (extname f) list = (found, s1)"
      by (cases "probe e s (extname f) list")
    with None Some assms(2) have "found = []"
      by (cases found) (simp_all add: discover_def)
    with p have "probe e s (extname f) list = ([], s1)" by simp
    with assms(1) have "s1 = s" by (rule probe_nothing_found)
    with None Some p \<open>found = []\<close> show ?thesis by (simp add: discover_def)
  qed
qed

text \<open>
  C4. On an instance whose timers are there, a call of \<^verbatim>\<open>require\<close> that fails
  leaves the instance as it was, so the engine is not in the \<open>required\<close> cache; it fails
  whenever the engine is neither cached nor loadable, and a later call loads the engine
  once it can be loaded. A call of \<^verbatim>\<open>read\<close> that fails leaves the instance as it
  was, the file is not in the file cache, and the result is the error, not a content. A
  call of \<^verbatim>\<open>discover\<close> that fails leaves the instance as it was, so no binding is
  memoized for a candidate that did not load.
\<close>

theorem failure_leaves_caches:
  assumes "timers s \<noteq> None"
  shows "(fst (require e s eng ext) = Inl err \<longrightarrow>
            snd (require e s eng ext) = s \<and> required s eng = None
            \<and> err = Error (not_installed eng ext))
       \<and> (required s eng = None \<and> eng \<noteq> ''html'' \<and> node_require e eng = None \<longrightarrow>
            fst (require e s eng ext) = Inl (Error (not_installed eng ext)))
       \<and> (fst (require e s eng ext) = Inl err \<and> node_require e' eng = Some m \<longrightarrow>
            fst (require e' (snd (require e s eng ext)) eng ext) = Inr (Some m))
       \<and> (fst (read e s f) = Inl err' \<longrightarrow> snd (read e s f) = s \<and> file s f = None)
       \<and> (file s f = None \<and> readFileSync e f = Inl message \<longrightarrow>
            fst (read e s f) = Inl (Error (''Unable to read '' @ f @ '' due to '' @ message)))
       \<and> (fst (discover e s f) = Inl err'' \<longrightarrow> snd (discover e s f) = s)"
proof -
  have a: "snd (require e s eng ext) = s \<and> required s eng = None
           \<and> err = Error (not_installed eng ext)"
    if "fst (require e s eng ext) = Inl err"
    using require_fails [OF assms that] by simp
  have b: "fst (require e s eng ext) = Inl (Error (not_installed eng ext))"
    if "required s eng = None \<and> eng \<noteq> ''html'' \<and> node_require e eng = None"
    using that by (simp add: require_cases)
  have c: "fst (require e' (snd (require e s eng ext)) eng ext) = Inr (Some m)"
    if "fst (require e s eng ext) = Inl err \<and> node_require e' eng = Some m"
  proof -
    from that have failed: "fst (require e s eng ext) = Inl err" by simp
    note facts = require_fails [OF assms failed]
    from that have "node_require e' eng = Some m" by simp
    then have "fst (require e' s eng ext) = Inr (Some m)"
      using assms facts(2,4) by (simp add: require_retry(1))
    with facts(1) show ?thesis by simp
  qed
  have d: "snd (read e s f) = s \<and> file s f = None" if "fst (read e s f) = Inl err'"
    using read_fails [OF assms that] by simp
  have g: "fst (read e s f) = Inl (Error (''Unable to read '' @ f @ '' due to '' @ message))"
    if "file s f = None \<and> readFileSync e f = Inl message"
    using that by (simp add: read_cases)
  have h: "snd (discover e s f) = s" if "fst (discover e s f) = Inl err''"
    using assms that by (rule discover_fails)
  from a b c d g h show ?thesis by blast
qed

theorem failure_leaves_caches_witness:
  "fst (require (surroundings [] []) (Temper None None) ''jade'' ''.jade'') =
     Inl (Error (not_installed ''jade'' ''.jade''))
   \<and> snd (require (surroundings [] []) (Temper None None) ''jade'' ''.jade'') = Temper None None
   \<and> fst (require (surroundings [''jade''] [])
            (snd (require (surroundings [] []) (Temper None None) ''jade'' ''.jade''))
            ''jade'' ''.jade'') = Inr (Some (Jsmodule ''jade''))
   \<and> fst (read (surroundings [] []) (Temper None None) ''/views/a.jade'') =
       Inl (Error (''Unable to read '' @ ''/views/a.jade'' @ '' due to ''
                   @ ''ENOENT: no such file or directory, open /views/a.jade''))
   \<and> snd (read (surroundings [] []) (Temper None None) ''/views/a.jade'') = Temper None None
   \<and> fst (discover (surroundings [] []) (Temper None None) ''/views/a.jade'') =
       Inl (Error ''No compatible template engine installed, please run: npm install --save jade'')
   \<and> snd (discover (surroundings [] []) (Temper None None) ''/views/a.jade'') = Temper None None"
proof -
  have live: "timers (Temper None None) \<noteq> None"
    by (simp add: Temper_def)
  have missing: "required (Temper None None) ''jade'' = None \<and> ''jade'' \<noteq> ''html''
                 \<and> node_require (surroundings [] []) ''jade'' = None"
    by (simp add: Temper_def surroundings_def)
  have later: "node_require (surroundings [''jade''] []) ''jade'' = Some (Jsmodule ''jade'')"
    by (simp add: surroundings_def)
  have unreadable: "file (Temper None None) ''/views/a.jade'' = None
      \<and> readFileSync (surroundings [] []) ''/views/a.jade'' =
          Inl ''ENOENT: no such file or directory, open /views/a.jade''"
    by (simp add: Temper_def surroundings_def)
  have ext: "extname ''/views/a.jade'' = ''.jade''" by code_simp
  have none: "fst (discover (surroundings [] []) (Temper None None) ''/views/a.jade'') =
       Inl (Error ''No compatible template engine installed, please run: npm install --save jade'')"
    by (simp add: discover_def ext Temper_def supported_def require_cases surroundings_def
          no_engine_def to_string_def)
  note at_jade = failure_leaves_caches [OF live, of "surroundings [] []" "''jade''" "''.jade''"
      "Error (not_installed ''jade'' ''.jade'')" "surroundings [''jade''] []" "Jsmodule ''jade''"
      "''/views/a.jade''"
      "Error (''Unable to read '' @ ''/views/a.jade'' @ '' due to ''
              @ ''ENOENT: no such file or directory, open /views/a.jade'')"
      "''ENOENT: no such file or directory, open /views/a.jade''"
      "Error ''No compatible template engine installed, please run: npm install --save jade''"]
  from at_jade missing
  have r1: "fst (require (surroundings [] []) (Temper None None) ''jade'' ''.jade'') =
              Inl (Error (not_installed ''jade'' ''.jade''))"
    by blast
  from at_jade r1
  have r2: "snd (require (surroundings [] []) (Temper None None) ''jade'' ''.jade'') =
              Temper None None"
    by blast
  from at_jade r1 later
  have r3: "fst (require (surroundings [''jade''] [])
                  (snd (require (surroundings [] []) (Temper None None) ''jade'' ''.jade''))
                  ''jade'' ''.jade'') = Inr (Some (Jsmodule ''jade''))"
    by blast
  from at_jade unreadable
  have r4: "fst (read (surroundings [] []) (Temper None None) ''/views/a.jade'') =
       Inl (Error (''Unable to read '' @ ''/views/a.jade'' @ '' due to ''
                   @ ''ENOENT: no such file or directory, open /views/a.jade''))"
    by blast
  from at_jade r4
  have r5: "snd (read (surroundings [] []) (Temper None None) ''/views/a.jade'') =
              Temper None None"
    by blast
  from at_jade none
  have r6: "snd (discover (surroundings [] []) (Temper None None) ''/views/a.jade'') =
              Temper None None"
    by blast
  from r1 r2 r3 r4 r5 none r6 show ?thesis by blast
qed

subsection \<open>Choosing the engine of an extension\<close>

lemma probe_all_fail:
  "\<forall>eng \<in> set list. required s eng = None \<and> eng \<noteq> ''html'' \<and> node_require e eng = None
   \<Longrightarrow> probe e s ext list = ([], s)"
  by (induction list) (auto simp: require_cases)

lemma supported_nonempty: "supported ext = Some list \<Longrightarrow> list \<noteq> []"
  by (auto simp: supported_def split: if_splits)

text \<open>
  C1, at a failing input. With \<^verbatim>\<open>hogan.js\<close> and \<^verbatim>\<open>handlebars\<close> both
  installed, the first call for a \<^verbatim>\<open>.mustache\<close> file returns
  \<^verbatim>\<open>hogan.js\<close>, what is memoized for the extension is \<^verbatim>\<open>handlebars\<close>, and
  that is what the next call returns.
\<close>

theorem discover_binding_differs:
  "fst (discover (surroundings [''hogan.js'', ''handlebars''] []) (Temper None None) ''a.mustache'')
     = Inr ''hogan.js''
   \<and> installed (snd (discover (surroundings [''hogan.js'', ''handlebars''] []) (Temper None None)
                       ''a.mustache'')) ''.mustache'' = Some ''handlebars''
   \<and> fst (discover (surroundings [''hogan.js'', ''handlebars''] [])
            (snd (discover (surroundings [''hogan.js'', ''handlebars''] []) (Temper None None)
                    ''a.mustache''))
            ''b.mustache'') = Inr ''handlebars''"
proof -
  have exta: "extname ''a.mustache'' = ''.mustache''" by code_simp
  have extb: "extname ''b.mustache'' = ''.mustache''" by code_simp
  show ?thesis
    by (simp add: discover_def exta extb Temper_def supported_def require_cases surroundings_def
          setTimeout_def)
qed

text \<open>
  C6, as stated: the error names every candidate that was tried. With no module installed
  the error of a \<^verbatim>\<open>.mustache\<close> file names \<^verbatim>\<open>hogan.js\<close> and neither
  \<^verbatim>\<open>mustache\<close> nor \<^verbatim>\<open>handlebars\<close>.
\<close>

theorem discover_error_counterexample:
  "fst (discover (surroundings [] []) (Temper None None) ''/views/page.mustache'') =
     Inl (Error ''No compatible template engine installed, please run: npm install --save hogan.js'')
   \<and> supported (extname ''/views/page.mustache'') = Some [''hogan.js'', ''mustache'', ''handlebars'']
   \<and> \<not> sublist ''mustache''
         ''No compatible template engine installed, please run: npm install --save hogan.js''
   \<and> \<not> sublist ''handlebars''
         ''No compatible template engine installed, please run: npm install --save hogan.js''"
proof -
  have ext: "extname ''/views/page.mustache'' = ''.mustache''" by code_simp
  have a: "fst (discover (surroundings [] []) (Temper None None) ''/views/page.mustache'') =
     Inl (Error ''No compatible template engine installed, please run: npm install --save hogan.js'')"
    by (simp add: discover_def ext Temper_def supported_def require_cases surroundings_def
          no_engine_def to_string_def)
  have b: "supported (extname ''/views/page.mustache'') = Some [''hogan.js'', ''mustache'', ''handlebars'']"
    unfolding ext by (simp add: supported_def)
  have c: "\<not> sublist ''mustache''
         ''No compatible template engine installed, please run: npm install --save hogan.js''"
    by code_simp
  have d: "\<not> sublist ''handlebars''
         ''No compatible template engine installed, please run: npm install --save hogan.js''"
    by code_simp
  from a b c d show ?thesis by blast
qed

text \<open>
  C6, amended. When the extension has no binding yet and none of its candidates is cached
  or loadable, \<^verbatim>\<open>discover\<close> fails, the message of the error names the first
  candidate of the list as the module to install, and the instance is left as it was.
\<close>

theorem discover_no_engine:
  assumes "installed s (extname f) = None" and "supported (extname f) = Some list"
    and "\<forall>eng \<in> set list. required s eng = None \<and> eng \<noteq> ''html'' \<and> node_require e eng = None"
  shows "\<exists>first rest. list = first # rest \<and>
           discover e s f =
             (Inl (Error (''No compatible template engine installed, please run: npm install --save ''
                            @ first)), s)"
proof -
  from assms(2) obtain first rest where l: "list = first # rest"
    by (cases list) (auto dest: supported_nonempty)
  have "probe e s (extname f) list = ([], s)"
    using assms(3) by (rule probe_all_fail)
  with assms(1,2) l show ?thesis
    by (simp add: discover_def no_engine_def to_string_def)
qed

theorem discover_no_engine_witness:
  "discover (surroundings [] []) (Temper None None) ''/views/page.mustache'' =
     (Inl (Error ''No compatible template engine installed, please run: npm install --save hogan.js''),
      Temper None None)"
proof -
  have ext: "extname ''/views/page.mustache'' = ''.mustache''" by code_simp
  have 1: "installed (Temper None None) (extname ''/views/page.mustache'') = None"
    by (simp add: Temper_def)
  have 2: "supported (extname ''/views/page.mustache'') = Some [''hogan.js'', ''mustache'', ''handlebars'']"
    unfolding ext by (simp add: supported_def)
  have 3: "\<forall>eng \<in> set [''hogan.js'', ''mustache'', ''handlebars''].
             required (Temper None None) eng = None \<and> eng \<noteq> ''html''
             \<and> node_require (surroundings [] []) eng = None"
    by (simp add: Temper_def surroundings_def)
  from discover_no_engine [OF 1 2 3] show ?thesis by simp
qed

subsection \<open>The compiled cache\<close>

lemma same_frame_refl: "same_frame s s"
  by (simp add: same_frame_def)

lemma same_frame_trans: "same_frame s s1 \<Longrightarrow> same_frame s1 s2 \<Longrightarrow> same_frame s s2"
  by (simp add: same_frame_def)

lemma require_frame: "require e s eng ext = (r, s1) \<Longrightarrow> same_frame s s1"
  by (auto simp: require_cases same_frame_def split: option.splits if_splits)

lemma read_frame: "read e s f = (r, s1) \<Longrightarrow> same_frame s s1"
  by (auto simp: read_cases same_frame_def split: option.splits sum.splits)

lemma probe_frame: "probe e s ext list = (found, s') \<Longrightarrow> same_frame s s'"
proof (induction list arbitrary: s found s')
  case Nil
  then show ?case by (simp add: same_frame_def)
next
  case (Cons eng rest)
  obtain r s1 where req: "require e s eng ext = (r, s1)" by (cases "require e s eng ext")
  then have f1: "same_frame s s1" by (rule require_frame)
  show ?case
  proof (cases r)
    case (Inl err)
    with req Cons.prems have "probe e s1 ext rest = (found, s')" by simp
    then have "same_frame s1 s'" by (rule Cons.IH)
    with f1 show ?thesis by (rule same_frame_trans)
  next
    case (Inr compiler)
    let ?s3 = "s1\<lparr>required := (required s1)(eng \<mapsto> compiler),
                   installed := (installed s1)(ext \<mapsto> eng)\<rparr>"
    obtain found' s4 where rec: "probe e ?s3 ext rest = (found', s4)"
      by (cases "probe e ?s3 ext rest")
    then have "same_frame ?s3 s4" by (rule Cons.IH)
    moreover have "same_frame s1 ?s3" by (simp add: same_frame_def)
    moreover from Inr req rec Cons.prems have "s' = s4" by (simp add: Let_def)
    ultimately show ?thesis using f1 by (auto intro: same_frame_trans)
  qed
qed

lemma discover_frame: "discover e s f = (r, s1) \<Longrightarrow> same_frame s s1"
  by (auto simp: discover_def Let_def same_frame_refl
      split: option.splits prod.splits list.splits dest: probe_frame)

lemma compile_frame:
  assumes "compile e s template opts = (r, s')"
  shows "cache s' = cache s \<and> compiled s' = compiled s"
proof -
  obtain r1 s1 where req: "require e s (opt_engine opts) (extname (opt_filename opts)) = (r1, s1)"
    by (cases "require e s (opt_engine opts) (extname (opt_filename opts))")
  then have f1: "same_frame s s1" by (rule require_frame)
  show ?thesis
  proof (cases r1)
    case (Inl err)
    with req assms f1 show ?thesis by (simp add: compile_def same_frame_def)
  next
    case compiler: (Inr compiler)
    show ?thesis
    proof (cases "switch e compiler template opts")
      case (Inl err)
      with req compiler assms f1 show ?thesis by (simp add: compile_def same_frame_def)
    next
      case (Inr p)
      define lib where
        "lib = (case part_library p of
                  None \<Rightarrow> (Inr [], s1)
                | Some path \<Rightarrow> if path = [] then (Inr [], s1) else read e s1 path)"
      obtain r2 s2 where l: "lib = (r2, s2)" by (cases lib)
      then have f2: "same_frame s1 s2"
        by (auto simp: lib_def same_frame_refl split: option.splits if_splits dest: read_frame)
      from req compiler Inr l assms
      have "cache s' = cache s2 \<and> compiled s' = compiled s2"
        by (auto simp: compile_def lib_def [symmetric] split: sum.splits option.splits)
      with f1 f2 show ?thesis by (simp add: same_frame_def)
    qed
  qed
qed

lemma fetch_hit: "compiled s f = Some ref \<Longrightarrow> fetch e s f eng = (Inr ref, s)"
  by (simp add: fetch_def)

lemma fetch_stores:
  assumes "cache s" and "fetch e s f eng = (Inr ref, s1)"
  shows "compiled s1 f = Some ref"
proof (cases "compiled s f")
  case (Some r)
  with assms show ?thesis by (simp add: fetch_def)
next
  case None
  obtain r1 s1' where rd: "read e s f = (r1, s1')" by (cases "read e s f")
  from read_frame [OF rd] have c1: "cache s1'" using assms(1) by (simp add: same_frame_def)
  from None assms(2) rd obtain template where r1: "r1 = Inr template"
    by (cases r1) (auto simp: fetch_def)
  define choice where
    "choice = (case eng of None \<Rightarrow> discover e s1' f
               | Some given \<Rightarrow> if given = [] then discover e s1' f else (Inr given, s1'))"
  obtain r2 s2 where ch: "choice = (r2, s2)" by (cases choice)
  have c2: "cache s2"
    using ch c1
    by (auto simp: choice_def same_frame_def split: option.splits if_splits dest: discover_frame)
  from None assms(2) rd r1 ch obtain chosen where r2: "r2 = Inr chosen"
    by (cases r2) (auto simp: fetch_def choice_def)
  let ?opts = "\<lparr>opt_engine = chosen, opt_name = Some (normalizeName f),
                 opt_filename = f, opt_debug = False\<rparr>"
  obtain r3 s3 where cp: "compile e s2 template ?opts = (r3, s3)"
    by (cases "compile e s2 template ?opts")
  have c3: "cache s3" using c2 compile_frame [OF cp] by simp
  from None assms(2) rd r1 ch r2 cp c3 show ?thesis
    by (cases r3) (auto simp: fetch_def choice_def)
qed

text \<open>
  C2. With caching on, after a call of \<^verbatim>\<open>fetch\<close> that returned an artifact, a
  second call for the same path returns the same reference and leaves the instance as it
  is, whatever the files and modules have become and whatever engine is asked for; so it
  does after the caller has added a property to the artifact, which stays.
\<close>

theorem fetch_twice:
  assumes "cache s" and "fetch e s f eng = (Inr ref, s1)"
  shows "fetch e' s1 f eng' = (Inr ref, s1)
         \<and> fetch e' (set_property s1 ref k v) f eng' = (Inr ref, set_property s1 ref k v)"
proof -
  from assms have "compiled s1 f = Some ref" by (rule fetch_stores)
  moreover from this have "compiled (set_property s1 ref k v) f = Some ref"
    by (simp add: set_property_def)
  ultimately show ?thesis by (simp add: fetch_hit)
qed

lemma extname_a_html: "extname ''/views/a.html'' = ''.html''"
  by code_simp

theorem fetch_twice_witness:
  "cache (Temper (Some True) None)
   \<and> fst (fetch (surroundings [] [(''/views/a.html'', ''<h1>{key}</h1>'')])
            (Temper (Some True) None) ''/views/a.html'' None) = Inr 0
   \<and> fetch (surroundings [''jade''] [(''/views/a.html'', ''<h2>changed</h2>'')])
         (snd (fetch (surroundings [] [(''/views/a.html'', ''<h1>{key}</h1>'')])
                (Temper (Some True) None) ''/views/a.html'' None))
         ''/views/a.html'' (Some ''jade'') =
       (Inr 0,
        snd (fetch (surroundings [] [(''/views/a.html'', ''<h1>{key}</h1>'')])
               (Temper (Some True) None) ''/views/a.html'' None))"
proof -
  let ?first = "fetch (surroundings [] [(''/views/a.html'', ''<h1>{key}</h1>'')])
                  (Temper (Some True) None) ''/views/a.html'' None"
  have on: "cache (Temper (Some True) None)"
    by (simp add: Temper_def)
  have ref: "fst ?first = Inr 0"
    by (simp add: fetch_def read_cases discover_def extname_a_html Temper_def supported_def
          require_cases surroundings_def setTimeout_def compile_def switch_def Let_def)
  then have "?first = (Inr 0, snd ?first)"
    by (metis prod.collapse)
  from fetch_twice [OF on this] on ref show ?thesis by blast
qed

subsection \<open>Tearing down\<close>

text \<open>
  C5, on \<^verbatim>\<open>destroy\<close> of \<^verbatim>\<open>index.js\<close>. No call changes the instance and
  none returns \<^verbatim>\<open>true\<close>; on a new instance the first call already returns
  \<^verbatim>\<open>false\<close>, its timers and caches staying as they are.
\<close>

theorem destroy_changes_nothing:
  "snd (destroy s) = s \<and> fst (destroy s) \<noteq> Inr True
   \<and> destroy (Temper c node_env) = (Inr False, Temper c node_env)"
  by (simp add: destroy_def Temper_def split: option.splits)

subsection \<open>The pass-through engine: keys, prototypes\<close>

lemma rx_match_literal:
  "rx_match (map (\<lambda>c. (Chr c, Once)) p) s = (if prefix p s then Some (length p) else None)"
proof (induction p arbitrary: s)
  case Nil
  show ?case by simp
next
  case (Cons a p)
  show ?case by (cases s) (simp_all add: Cons.IH)
qed

lemma parse_pieces_literal:
  "list_all (\<lambda>c. \<not> special c) k \<Longrightarrow>
   parse_pieces (k @ ''}'') acc = Inr (rev acc @ map (\<lambda>c. (Chr c, Once)) (k @ ''}''))"
proof (induction k arbitrary: acc)
  case Nil
  show ?case by simp
next
  case (Cons c k)
  from Cons.prems have c: "\<not> special c" and k: "list_all (\<lambda>c. \<not> special c) k"
    by simp_all
  from c show ?case
    by (simp add: special_def Cons.IH [OF k])
qed

lemma new_RegExp_plain:
  assumes "plain_key k"
  shows "new_RegExp (placeholder k) = Inr (map (\<lambda>c. (Chr c, Once)) (placeholder k))"
proof -
  from assms have "list_all (\<lambda>c. \<not> special c) k" and "\<not> braced (k @ ''}'')"
    by (simp_all add: plain_key_def)
  then show ?thesis
    by (simp add: new_RegExp_def placeholder_def parse_pieces_literal)
qed

lemma replace_from_literal:
  "p \<noteq> [] \<Longrightarrow>
   replace_from (map (\<lambda>c. (Chr c, Once)) p) (By_function (\<lambda>m. v)) pre s = subst_all p v s"
proof (induction p v s arbitrary: pre rule: subst_all.induct)
  case (1 pat v)
  then show ?case by (simp add: rx_match_literal)
next
  case (2 pat v c cs)
  show ?case
  proof (cases "prefix pat (c # cs)")
    case True
    from \<open>pat \<noteq> []\<close> obtain n where n: "length pat = Suc n" by (cases pat) auto
    from True 2 n show ?thesis
      by (simp add: rx_match_literal)
  next
    case False
    with 2 show ?thesis by (simp add: rx_match_literal)
  qed
qed

lemma html_loop_append:
  "html_loop t d (ks @ ks') =
     (case html_loop t d ks of Inl e \<Rightarrow> Inl e | Inr t' \<Rightarrow> html_loop t' d ks')"
  by (induction ks arbitrary: t) (auto split: sum.splits)

lemma html_loop_skip: "list_all (\<lambda>k. \<not> hasOwnProperty d k) ks \<Longrightarrow> html_loop t d ks = Inr t"
  by (induction ks) auto

lemma for_in_unseen: "set (for_in d seen) \<inter> set seen = {}"
proof (induction d seen rule: for_in.induct)
  case (1 ps pr seen)
  show ?case
  proof (cases pr)
    case None
    then show ?thesis by auto
  next
    case (Some parent)
    with 1 have "set (for_in parent (seen @ map fst ps)) \<inter> set (seen @ map fst ps) = {}"
      by simp
    with Some show ?thesis by auto
  qed
qed

lemma for_in_own_first:
  "\<exists>inherited. for_in (Obj ps pr) [] = map fst (filter (\<lambda>(k, p). enumerable p) ps) @ inherited
     \<and> list_all (\<lambda>k. \<not> hasOwnProperty (Obj ps pr) k) inherited"
proof (cases pr)
  case None
  then show ?thesis by simp
next
  case (Some parent)
  have "set (for_in parent (map fst ps)) \<inter> set (map fst ps) = {}"
    by (rule for_in_unseen)
  then have "list_all (\<lambda>k. \<not> hasOwnProperty (Obj ps pr) k) (for_in parent (map fst ps))"
    by (auto simp: list_all_iff hasOwnProperty_def)
  with Some show ?thesis by simp
qed

lemma html_own_keys:
  "html t (Obj ps pr) =
     html_loop t (Obj ps pr) (map fst (filter (\<lambda>(k, p). enumerable p) ps))"
proof -
  from for_in_own_first [of ps pr] obtain inherited where
    keys: "for_in (Obj ps pr) [] = map fst (filter (\<lambda>(k, p). enumerable p) ps) @ inherited"
    and skip: "list_all (\<lambda>k. \<not> hasOwnProperty (Obj ps pr) k) inherited"
    by blast
  let ?own = "map fst (filter (\<lambda>(k, p). enumerable p) ps)"
  have "html t (Obj ps pr) = html_loop t (Obj ps pr) (?own @ inherited)"
    by (simp only: html_def keys)
  also have "\<dots> = (case html_loop t (Obj ps pr) ?own of
                      Inl e \<Rightarrow> Inl e
                    | Inr t' \<Rightarrow> html_loop t' (Obj ps pr) inherited)"
    by (rule html_loop_append)
  also have "\<dots> = html_loop t (Obj ps pr) ?own"
    by (cases "html_loop t (Obj ps pr) ?own") (simp_all add: html_loop_skip [OF skip])
  finally show ?thesis .
qed


lemma get_own: "hasOwnProperty (Obj ps pr) k \<Longrightarrow> get (Obj ps pr) k = get (Obj ps None) k"
  by (auto simp: hasOwnProperty_def split: option.splits dest: map_of_eq_None_iff [THEN iffD1])

lemma html_loop_proto: "html_loop t (Obj ps pr) ks = html_loop t (Obj ps None) ks"
proof (induction ks arbitrary: t)
  case Nil
  show ?case by simp
next
  case (Cons k ks)
  have own: "hasOwnProperty (Obj ps pr) k = hasOwnProperty (Obj ps None) k"
    by (simp add: hasOwnProperty_def)
  show ?case
  proof (cases "hasOwnProperty (Obj ps pr) k")
    case True
    with own get_own [OF True] show ?thesis
      by (simp add: Cons.IH split: sum.splits)
  next
    case False
    with own show ?thesis by (simp add: Cons.IH)
  qed
qed

lemma html_proto: "html t (Obj ps pr) = html t (Obj ps None)"
proof -
  have "html t (Obj ps pr) = html_loop t (Obj ps pr) (map fst (filter (\<lambda>(k, p). enumerable p) ps))"
    by (rule html_own_keys)
  also have "\<dots> = html_loop t (Obj ps None) (map fst (filter (\<lambda>(k, p). enumerable p) ps))"
    by (rule html_loop_proto)
  also have "\<dots> = html t (Obj ps None)"
    by (rule html_own_keys [symmetric])
  finally show ?thesis .
qed

lemma html_none_enumerable:
  "list_all (\<lambda>(k, p). \<not> enumerable p) ps \<Longrightarrow> html t (Obj ps pr) = Inr t"
proof -
  assume "list_all (\<lambda>(k, p). \<not> enumerable p) ps"
  then have "filter (\<lambda>(k, p). enumerable p) ps = []"
    by (auto simp: list_all_iff filter_empty_conv)
  then show ?thesis by (simp add: html_own_keys)
qed


lemma html_loop_plain:
  assumes "list_all plain_key ks" and "list_all (hasOwnProperty d) ks"
  shows "html_loop t d ks =
           Inr (fold (\<lambda>k. subst_all (placeholder k) (to_string (get d k))) ks t)"
  using assms
proof (induction ks arbitrary: t)
  case Nil
  show ?case by simp
next
  case (Cons k ks)
  from Cons.prems have k: "plain_key k" "hasOwnProperty d k"
    and ks: "list_all plain_key ks" "list_all (hasOwnProperty d) ks"
    by simp_all
  have ne: "placeholder k \<noteq> []" by (simp add: placeholder_def)
  from k show ?case
    using new_RegExp_plain [OF k(1)]
    by (simp add: Cons.IH [OF ks] replace_global_def replace_from_literal [OF ne]
          placeholder_def [symmetric])
qed

lemma fold_entries:
  assumes "\<And>k p. (k, p) \<in> set qs \<Longrightarrow> g k = content p"
  shows "fold (\<lambda>k. subst_all (placeholder k) (g k)) (map fst qs) t =
           fold (\<lambda>(k, v). subst_all (placeholder k) v) (map (\<lambda>(k, p). (k, content p)) qs) t"
  using assms
proof (induction qs arbitrary: t)
  case Nil
  show ?case by simp
next
  case (Cons q qs)
  obtain k p where q: "q = (k, p)" by (cases q)
  from Cons.prems q have "g k = content p" by simp
  moreover have "fold (\<lambda>k. subst_all (placeholder k) (g k)) (map fst qs) t' =
      fold (\<lambda>(k, v). subst_all (placeholder k) v) (map (\<lambda>(k, p). (k, content p)) qs) t'" for t'
    using Cons.prems by (intro Cons.IH) simp
  ultimately show ?case by (simp add: q)
qed

lemma html_plain:
  assumes "distinct (map fst (own d))" and "list_all (\<lambda>(k, v). plain_key k) (entries d)"
  shows "html t d = Inr (fold (\<lambda>(k, v). subst_all (placeholder k) v) (entries d) t)"
proof -
  obtain ps pr where d: "d = Obj ps pr" by (cases d)
  let ?qs = "filter (\<lambda>(k, p). enumerable p) ps"
  from assms(2) have plain: "list_all plain_key (map fst ?qs)"
    by (auto simp: entries_def d list_all_iff)
  have owned: "list_all (hasOwnProperty d) (map fst ?qs)"
    by (auto simp: list_all_iff hasOwnProperty_def d intro: rev_image_eqI)
  have "to_string (get d k) = content p" if "(k, p) \<in> set ?qs" for k p
  proof -
    from that assms(1) have "map_of ps k = Some p"
      by (simp add: d map_of_is_SomeI)
    then show ?thesis by (simp add: d to_string_def)
  qed
  then have "fold (\<lambda>k. subst_all (placeholder k) (to_string (get d k))) (map fst ?qs) t =
               fold (\<lambda>(k, v). subst_all (placeholder k) v) (map (\<lambda>(k, p). (k, content p)) ?qs) t"
    by (rule fold_entries)
  with html_loop_plain [OF plain owned, of t] show ?thesis
    by (simp add: d html_own_keys entries_def)
qed

text \<open>
  C10. What \<^verbatim>\<open>Temper.html\<close> returns does not depend on the prototype of the
  record: only own properties are substituted, and only enumerable ones, so a record with no
  enumerable property of its own leaves the template as it is. A record without prototype
  works, as in the test. Called without data, the server returns the template.
\<close>

theorem html_own_properties_only:
  "html t (Obj ps pr) = html t (Obj ps None)
   \<and> (list_all (\<lambda>(k, p). \<not> enumerable p) ps \<longrightarrow> html t (Obj ps pr) = Inr t)
   \<and> call_server (Html_render t) None = Inr t
   \<and> html ''<h1>{key}</h1>'' (Obj [(''key'', \<lparr>enumerable = True, content = ''bar''\<rparr>)] None)
       = Inr ''<h1>bar</h1>''"
proof -
  have a: "html t (Obj ps pr) = html t (Obj ps None)"
    by (rule html_proto)
  have b: "html t (Obj ps pr) = Inr t" if "list_all (\<lambda>(k, p). \<not> enumerable p) ps"
    using that by (rule html_none_enumerable)
  have c: "call_server (Html_render t) None = Inr t"
    by (simp add: empty_object_def html_none_enumerable)
  have "plain_key ''key''" by code_simp
  then have d: "html ''<h1>{key}</h1>'' (Obj [(''key'', \<lparr>enumerable = True, content = ''bar''\<rparr>)] None)
       = Inr ''<h1>bar</h1>''"
    by (simp add: html_plain entries_def placeholder_def)
  from a b c d show ?thesis by blast
qed

theorem html_own_properties_only_witness:
  "html ''<h1>{key}</h1>''
     (Obj [(''secret'', \<lparr>enumerable = False, content = ''x''\<rparr>)]
        (Some (Obj [(''key'', \<lparr>enumerable = True, content = ''bar''\<rparr>)] None)))
     = Inr ''<h1>{key}</h1>''"
proof -
  have "list_all (\<lambda>(k, p). \<not> enumerable p) [(''secret'', \<lparr>enumerable = False, content = ''x''\<rparr>)]"
    by simp
  with html_own_properties_only
    [of "''<h1>{key}</h1>''" "[(''secret'', \<lparr>enumerable = False, content = ''x''\<rparr>)]"
      "Some (Obj [(''key'', \<lparr>enumerable = True, content = ''bar''\<rparr>)] None)"]
  show ?thesis by blast
qed

subsection \<open>The pass-through engine: values\<close>


lemma subst_all_before:
  "pat \<noteq> [] \<Longrightarrow> hd pat \<notin> set a \<Longrightarrow> subst_all pat v (a @ r) = a @ subst_all pat v r"
proof (induction a)
  case Nil
  show ?case by simp
next
  case (Cons c a)
  from Cons.prems have "\<not> prefix pat (c # a @ r)"
    by (cases pat) auto
  with Cons show ?case by simp
qed

lemma subst_all_at: "pat \<noteq> [] \<Longrightarrow> subst_all pat v (pat @ b) = v @ subst_all pat v b"
  by (cases pat) simp_all

lemma subst_all_once:
  assumes "pat \<noteq> []" and "hd pat \<notin> set a" and "hd pat \<notin> set b"
  shows "subst_all pat v (a @ pat @ b) = a @ v @ b"
proof -
  from assms(1,3) have "subst_all pat v (b @ []) = b @ subst_all pat v []"
    by (rule subst_all_before)
  then have "subst_all pat v b = b" by simp
  with assms(1,2) show ?thesis
    by (simp add: subst_all_before subst_all_at)
qed

lemma replace_from_fill:
  "replace_from ps (By_function (\<lambda>m. v)) pre s = fill v (skeleton ps s)"
proof (induction ps s arbitrary: pre rule: skeleton.induct)
  case (1 ps)
  show ?case by (simp add: fill_def split: option.splits)
next
  case (2 ps c cs)
  show ?case
  proof (cases "rx_match ps (c # cs)")
    case None
    with 2 show ?thesis by (simp add: fill_def)
  next
    case (Some n)
    with 2 show ?thesis by (cases n) (simp_all add: fill_def)
  qed
qed

lemma html_single_key:
  "html t (Obj [(k, \<lparr>enumerable = True, content = v\<rparr>)] pr) =
     (case new_RegExp (placeholder k) of
        Inl err \<Rightarrow> Inl err
      | Inr ps \<Rightarrow> Inr (fill v (skeleton ps t)))"
proof -
  have "html t (Obj [(k, \<lparr>enumerable = True, content = v\<rparr>)] pr) =
          html_loop t (Obj [(k, \<lparr>enumerable = True, content = v\<rparr>)] pr) [k]"
    by (simp add: html_own_keys)
  then show ?thesis
    by (simp add: hasOwnProperty_def placeholder_def to_string_def replace_global_def
          replace_from_fill split: sum.splits)
qed

lemma html_loop_fill:
  "list_all (hasOwnProperty d) ks \<Longrightarrow>
   html_loop t d ks = fill_keys (map (\<lambda>k. (k, to_string (get d k))) ks) t"
proof (induction ks arbitrary: t)
  case Nil
  show ?case by simp
next
  case (Cons k ks)
  from Cons.prems have k: "hasOwnProperty d k" and ks: "list_all (hasOwnProperty d) ks"
    by simp_all
  from k show ?case
    by (simp add: Cons.IH [OF ks] placeholder_def replace_global_def replace_from_fill
          split: sum.splits)
qed

lemma html_fill:
  assumes "distinct (map fst (own d))"
  shows "html t d = fill_keys (entries d) t"
proof -
  obtain ps pr where d: "d = Obj ps pr" by (cases d)
  let ?qs = "filter (\<lambda>(k, p). enumerable p) ps"
  have owned: "list_all (hasOwnProperty d) (map fst ?qs)"
    by (auto simp: list_all_iff hasOwnProperty_def d intro: rev_image_eqI)
  have point: "to_string (get d k) = content p" if "(k, p) \<in> set ?qs" for k p
  proof -
    from that assms have "map_of ps k = Some p"
      by (simp add: d map_of_is_SomeI)
    then show ?thesis by (simp add: d to_string_def)
  qed
  have "((\<lambda>k. (k, to_string (get d k))) \<circ> fst) x = (\<lambda>(k, p). (k, content p)) x"
    if "x \<in> set ?qs" for x
    using that point [of "fst x" "snd x"] by (simp add: case_prod_beta)
  then have "map ((\<lambda>k. (k, to_string (get d k))) \<circ> fst) ?qs = map (\<lambda>(k, p). (k, content p)) ?qs"
    by (rule map_cong [OF refl])
  then have "map (\<lambda>k. (k, to_string (get d k))) (map fst ?qs) = map (\<lambda>(k, p). (k, content p)) ?qs"
    by (simp only: map_map)
  then have pairs: "map (\<lambda>k. (k, to_string (get d k))) (map fst ?qs) = entries d"
    by (simp add: d entries_def)
  have "html t d = html_loop t d (map fst ?qs)"
    unfolding d by (rule html_own_keys)
  also have "\<dots> = fill_keys (map (\<lambda>k. (k, to_string (get d k))) (map fst ?qs)) t"
    using owned by (rule html_loop_fill)
  finally show ?thesis
    by (simp only: pairs)
qed

text \<open>
  C9. The value of a key is put in the place of each match as it is, for every record:
  key after key, the text becomes the text with the value in the places of the matches,
  and where the places are does not depend on the value. For plain keys the places are the
  occurrences of the placeholder. For a record of one key: between two texts without a
  brace the one placeholder becomes the value, whatever characters the value has.
\<close>

theorem html_value_verbatim:
  "(distinct (map fst (own d)) \<longrightarrow> html t d = fill_keys (entries d) t)
   \<and> (distinct (map fst (own d)) \<and> list_all (\<lambda>(k, v). plain_key k) (entries d) \<longrightarrow>
        html t d = Inr (fold (\<lambda>(k, v). subst_all (placeholder k) v) (entries d) t))
   \<and> html t (Obj [(k, \<lparr>enumerable = True, content = v\<rparr>)] pr) =
        (case new_RegExp (placeholder k) of
           Inl err \<Rightarrow> Inl err
         | Inr ps \<Rightarrow> Inr (fill v (skeleton ps t)))
   \<and> (plain_key k \<longrightarrow>
        html t (Obj [(k, \<lparr>enumerable = True, content = v\<rparr>)] pr)
          = Inr (subst_all (placeholder k) v t))
   \<and> (plain_key k \<and> CHR ''{'' \<notin> set a \<and> CHR ''{'' \<notin> set b \<longrightarrow>
        html (a @ placeholder k @ b) (Obj [(k, \<lparr>enumerable = True, content = v\<rparr>)] pr)
          = Inr (a @ v @ b))"
proof -
  let ?d = "Obj [(k, \<lparr>enumerable = True, content = v\<rparr>)] pr"
  have every: "html t d = fill_keys (entries d) t" if "distinct (map fst (own d))"
    using that by (rule html_fill)
  have plain: "html t d = Inr (fold (\<lambda>(k, v). subst_all (placeholder k) v) (entries d) t)"
    if "distinct (map fst (own d)) \<and> list_all (\<lambda>(k, v). plain_key k) (entries d)"
    using that by (simp add: html_plain)
  have places: "html t ?d =
     (case new_RegExp (placeholder k) of
        Inl err \<Rightarrow> Inl err
      | Inr ps \<Rightarrow> Inr (fill v (skeleton ps t)))"
    by (rule html_single_key)
  have general: "html t' ?d = Inr (subst_all (placeholder k) v t')" if "plain_key k" for t'
    using that by (simp add: html_plain entries_def)
  have "subst_all (placeholder k) v (a @ placeholder k @ b) = a @ v @ b"
    if "CHR ''{'' \<notin> set a \<and> CHR ''{'' \<notin> set b"
    using that by (intro subst_all_once) (simp_all add: placeholder_def)
  with general
  have once: "html (a @ placeholder k @ b) ?d = Inr (a @ v @ b)"
    if "plain_key k \<and> CHR ''{'' \<notin> set a \<and> CHR ''{'' \<notin> set b"
    using that by simp
  from every plain places general once show ?thesis by blast
qed

theorem html_value_verbatim_witness:
  "plain_key ''key''
   \<and> html ''<h1>{key}</h1>''
       (Obj [(''key'', \<lparr>enumerable = True, content = [CHR ''$'', CHR 0x27] @ ''bar''\<rparr>)] None)
       = Inr (''<h1>'' @ [CHR ''$'', CHR 0x27] @ ''bar'' @ ''</h1>'')
   \<and> html ''<h1>{key}</h1>''
       (Obj [(''key'', \<lparr>enumerable = True, content = ''$&{key}''\<rparr>)] None)
       = Inr (''<h1>'' @ ''$&{key}'' @ ''</h1>'')
   \<and> html ''<h1>{a}</h1><p>{b}</p>''
       (Obj [(''a'', \<lparr>enumerable = True, content = ''x''\<rparr>),
             (''b'', \<lparr>enumerable = True, content = [CHR ''$'', CHR 0x27] @ ''bar''\<rparr>)] None)
       = Inr (''<h1>x</h1><p>'' @ [CHR ''$'', CHR 0x27] @ ''bar'' @ ''</p>'')"
proof -
  have plain: "plain_key ''key''" by code_simp
  then have here: "plain_key ''key'' \<and> CHR ''{'' \<notin> set ''<h1>'' \<and> CHR ''{'' \<notin> set ''</h1>''"
    by simp
  have template: "''<h1>{key}</h1>'' = ''<h1>'' @ placeholder ''key'' @ ''</h1>''"
    by (simp add: placeholder_def)
  from html_value_verbatim
    [of _ _ "''key''" "[CHR ''$'', CHR 0x27] @ ''bar''" None "''<h1>''" "''</h1>''"] here
  have quote: "html (''<h1>'' @ placeholder ''key'' @ ''</h1>'')
          (Obj [(''key'', \<lparr>enumerable = True, content = [CHR ''$'', CHR 0x27] @ ''bar''\<rparr>)] None)
        = Inr (''<h1>'' @ ([CHR ''$'', CHR 0x27] @ ''bar'') @ ''</h1>'')"
    by blast
  from html_value_verbatim [of _ _ "''key''" "''$&{key}''" None "''<h1>''" "''</h1>''"] here
  have match: "html (''<h1>'' @ placeholder ''key'' @ ''</h1>'')
          (Obj [(''key'', \<lparr>enumerable = True, content = ''$&{key}''\<rparr>)] None)
        = Inr (''<h1>'' @ ''$&{key}'' @ ''</h1>'')"
    by blast
  let ?two = "Obj [(''a'', \<lparr>enumerable = True, content = ''x''\<rparr>),
                   (''b'', \<lparr>enumerable = True, content = [CHR ''$'', CHR 0x27] @ ''bar''\<rparr>)] None"
  have entries: "entries ?two = [(''a'', ''x''), (''b'', [CHR ''$'', CHR 0x27] @ ''bar'')]"
    by (simp add: entries_def)
  have "plain_key ''a''" "plain_key ''b''" by code_simp+
  then have keys: "distinct (map fst (own ?two)) \<and> list_all (\<lambda>(k, v). plain_key k) (entries ?two)"
    unfolding entries by simp
  have result: "fold (\<lambda>(k, v). subst_all (placeholder k) v) (entries ?two) ''<h1>{a}</h1><p>{b}</p>''
      = ''<h1>x</h1><p>'' @ [CHR ''$'', CHR 0x27] @ ''bar'' @ ''</p>''"
    unfolding entries by (simp add: placeholder_def)
  from html_value_verbatim [of ?two "''<h1>{a}</h1><p>{b}</p>''"] keys
  have "html ''<h1>{a}</h1><p>{b}</p>'' ?two =
      Inr (fold (\<lambda>(k, v). subst_all (placeholder k) v) (entries ?two) ''<h1>{a}</h1><p>{b}</p>'')"
    by blast
  with result have both: "html ''<h1>{a}</h1><p>{b}</p>'' ?two
      = Inr (''<h1>x</h1><p>'' @ [CHR ''$'', CHR 0x27] @ ''bar'' @ ''</p>'')"
    by simp
  from plain quote match both show ?thesis unfolding template by simp
qed

subsection \<open>The pass-through engine: the client\<close>













end
